theory Spec2Isabelle
  imports Main
begin

section \<open>The order aggregate of \<^verbatim>\<open>order/order.go\<close>\<close>

subsection \<open>Errors, statuses, events and commands\<close>

text \<open>The three package-level error values.\<close>

datatype error = errAlreadyPlaced | errEmptyOrderLine | errOrderNotFound

text \<open>
  \<^verbatim>\<open>type Status int\<close> with \<^verbatim>\<open>StatusPlaced Status = iota\<close> and \<^verbatim>\<open>StatusActivated\<close>
  after it: the two named statuses are the integers 0 and 1, and a status field
  may hold any integer. No arithmetic is done on a status, so the width of Go's
  \<^verbatim>\<open>int\<close> plays no role.
\<close>

type_synonym Status = int

definition StatusPlaced :: Status where
  "StatusPlaced = 0"

definition StatusActivated :: Status where
  "StatusActivated = 1"

text \<open>
  \<^verbatim>\<open>Event\<close> is an interface with the single method \<^verbatim>\<open>ID() string\<close>. The package
  implements it by \<^verbatim>\<open>Placed\<close> and \<^verbatim>\<open>Activated\<close>, each with the one field
  \<^verbatim>\<open>OrderID\<close>; \<open>OtherEvent\<close> stands for any implementation from outside the
  package, of which the code only ever reads the identifier.
\<close>

datatype Event = Placed string | Activated string | OtherEvent string

fun Event_ID :: "Event \<Rightarrow> string" where
  "Event_ID (Placed OrderID) = OrderID"
| "Event_ID (Activated OrderID) = OrderID"
| "Event_ID (OtherEvent OrderID) = OrderID"

text \<open>\<^verbatim>\<open>type Line struct {}\<close>: an order line carries no data.\<close>

datatype Line = Line

text \<open>
  The commands \<^verbatim>\<open>Place{OrderID, Lines}\<close> and \<^verbatim>\<open>Activate{OrderID}\<close>. The handler
  takes an \<^verbatim>\<open>interface{}\<close>; \<open>OtherCommand\<close> stands for every value of another type.
\<close>

datatype Command = Place string "Line list" | Activate string | OtherCommand

subsection \<open>The aggregate\<close>

record Order =
  ID :: string
  Status :: Status
  uncommitted :: "Event list"

text \<open>The zero value \<^verbatim>\<open>Order{}\<close> (also \<^verbatim>\<open>var o Order\<close>).\<close>

definition Order_zero :: Order where
  "Order_zero = \<lparr>ID = '''', Status = 0, uncommitted = []\<rparr>"

text \<open>\<^verbatim>\<open>handle\<close>: a type switch with no default case.\<close>

fun handle :: "Order \<Rightarrow> Event \<Rightarrow> Order" where
  "handle o' (Activated _) = o'\<lparr>Status := StatusActivated\<rparr>"
| "handle o' (Placed _) = o'\<lparr>Status := StatusPlaced\<rparr>"
| "handle o' (OtherEvent _) = o'"

text \<open>\<^verbatim>\<open>apply(o, e, isNew)\<close>; the name \<open>apply\<close> is taken in Isabelle.\<close>

definition apply_event :: "Order \<Rightarrow> Event \<Rightarrow> bool \<Rightarrow> Order" where
  "apply_event o' e isNew =
     (let o1 = o'\<lparr>ID := Event_ID e\<rparr>;
          o2 = handle o1 e
      in if isNew then o2\<lparr>uncommitted := uncommitted o2 @ [e]\<rparr> else o2)"

text \<open>
  \<^verbatim>\<open>func (o *Order) Place(orderLines []Line) error\<close>: the returned error
  (\<open>None\<close> for \<^verbatim>\<open>nil\<close>) together with the aggregate as the call leaves it.
\<close>

definition Order_Place :: "Order \<Rightarrow> Line list \<Rightarrow> error option \<times> Order" where
  "Order_Place o' orderLines =
     (if ID o' = '''' then (Some errAlreadyPlaced, o')
      else if length orderLines = 0 then (Some errEmptyOrderLine, o')
      else (None, apply_event o' (Placed (ID o')) True))"

text \<open>\<^verbatim>\<open>func (o *Order) Activate()\<close>.\<close>

definition Order_Activate :: "Order \<Rightarrow> Order" where
  "Order_Activate o' =
     (if Status o' = StatusPlaced then apply_event o' (Activated (ID o')) True else o')"

text \<open>\<^verbatim>\<open>loadFromHistory\<close>: the range loop over the events, then the whole function.\<close>

fun loadFromHistory_loop :: "Event list \<Rightarrow> Order \<Rightarrow> Order" where
  "loadFromHistory_loop [] o' = o'"
| "loadFromHistory_loop (e # es) o' = loadFromHistory_loop es (apply_event o' e False)"

definition loadFromHistory :: "Event list \<Rightarrow> Order" where
  "loadFromHistory evs = loadFromHistory_loop evs Order_zero"

subsection \<open>The in-memory event store\<close>

record eventStore =
  events :: "Event list"

text \<open>\<^verbatim>\<open>eventStore.Save\<close> appends to the one log; it does not read its argument \<^verbatim>\<open>id\<close>.\<close>

definition eventStore_Save :: "eventStore \<Rightarrow> string \<Rightarrow> Event list \<Rightarrow> eventStore" where
  "eventStore_Save s id' evs = s\<lparr>events := events s @ evs\<rparr>"

text \<open>\<^verbatim>\<open>eventStore.Load\<close>: the filtering loop with its accumulator \<open>result\<close>.\<close>

fun eventStore_Load_loop :: "Event list \<Rightarrow> string \<Rightarrow> Event list \<Rightarrow> Event list" where
  "eventStore_Load_loop [] id' result = result"
| "eventStore_Load_loop (e # es) id' result =
     eventStore_Load_loop es id' (if Event_ID e = id' then result @ [e] else result)"

definition eventStore_Load :: "eventStore \<Rightarrow> string \<Rightarrow> error + Event list" where
  "eventStore_Load s id' =
     (let result = eventStore_Load_loop (events s) id' []
      in if length result = 0 then Inl errOrderNotFound else Inr result)"

definition NewEventStore :: eventStore where
  "NewEventStore = \<lparr>events = []\<rparr>"

subsection \<open>The repository\<close>

text \<open>
  The repository holds its store; a call that writes to the store returns the
  repository with the store as the call leaves it.
\<close>

record defaultRepository =
  Store :: eventStore

definition defaultRepository_Save :: "defaultRepository \<Rightarrow> Order \<Rightarrow> defaultRepository" where
  "defaultRepository_Save r order =
     (if length (uncommitted order) > 0
      then r\<lparr>Store := eventStore_Save (Store r) (ID order) (uncommitted order)\<rparr>
      else r)"

definition defaultRepository_Load :: "defaultRepository \<Rightarrow> string \<Rightarrow> Order" where
  "defaultRepository_Load r id' =
     (case eventStore_Load (Store r) id' of
        Inl err \<Rightarrow> Order_zero
      | Inr evs \<Rightarrow> loadFromHistory evs)"

definition NewRepository :: "eventStore \<Rightarrow> defaultRepository" where
  "NewRepository store = \<lparr>Store = store\<rparr>"

subsection \<open>The command handler\<close>

record commandHandler =
  Repository :: defaultRepository

text \<open>
  \<^verbatim>\<open>commandHandler.Handle\<close>: the handler as the call leaves it, and the errors the
  call printed with \<^verbatim>\<open>log.Println\<close>.
\<close>

fun commandHandler_Handle :: "commandHandler \<Rightarrow> Command \<Rightarrow> commandHandler \<times> error list" where
  "commandHandler_Handle h (Place OrderID Lines) =
     (let order = \<lparr>ID = OrderID, Status = 0, uncommitted = []\<rparr>;
          (err, order') = Order_Place order Lines;
          logged = (case err of Some e \<Rightarrow> [e] | None \<Rightarrow> [])
      in (h\<lparr>Repository := defaultRepository_Save (Repository h) order'\<rparr>, logged))"
| "commandHandler_Handle h (Activate OrderID) =
     (let order = defaultRepository_Load (Repository h) OrderID;
          order' = Order_Activate order
      in (h\<lparr>Repository := defaultRepository_Save (Repository h) order'\<rparr>, []))"
| "commandHandler_Handle h OtherCommand = (h, [])"

definition NewCommandHandler :: "defaultRepository \<Rightarrow> commandHandler" where
  "NewCommandHandler r = \<lparr>Repository = r\<rparr>"

subsection \<open>Sequences of calls on one aggregate\<close>

text \<open>
  A caller holding an aggregate can call \<^verbatim>\<open>Place(lines)\<close> and \<^verbatim>\<open>Activate()\<close> on
  it, one after the other. \<open>perform\<close> runs such a sequence of calls and yields
  the aggregate they leave, or \<open>None\<close> as soon as one \<^verbatim>\<open>Place\<close> returns an error
  (\<^verbatim>\<open>Activate\<close> has no error result).
\<close>

datatype Operation = CallPlace "Line list" | CallActivate

fun perform :: "Order \<Rightarrow> Operation list \<Rightarrow> Order option" where
  "perform o' [] = Some o'"
| "perform o' (CallPlace orderLines # ops) =
     (case Order_Place o' orderLines of
        (None, o1) \<Rightarrow> perform o1 ops
      | (Some err, o1) \<Rightarrow> None)"
| "perform o' (CallActivate # ops) = perform (Order_Activate o') ops"

text \<open>
  The state of an aggregate that has generated at least one event by its own
  operations: the newest uncommitted event carries the aggregate's identifier and
  is the one that set the current status.
\<close>

definition last_event_applied :: "Order \<Rightarrow> bool" where
  "last_event_applied o' \<longleftrightarrow>
     uncommitted o' \<noteq> [] \<and>
     (last (uncommitted o') = Placed (ID o') \<and> Status o' = StatusPlaced \<or>
      last (uncommitted o') = Activated (ID o') \<and> Status o' = StatusActivated)"

section \<open>Properties\<close>

subsection \<open>The loops, and one application of an event\<close>

lemma eventStore_Load_loop_filter:
  "eventStore_Load_loop es id' result = result @ filter (\<lambda>e. Event_ID e = id') es"
  by (induction es arbitrary: result) simp_all

lemma eventStore_Load_filter:
  "eventStore_Load s id' =
     (if filter (\<lambda>e. Event_ID e = id') (events s) = [] then Inl errOrderNotFound
      else Inr (filter (\<lambda>e. Event_ID e = id') (events s)))"
  by (simp add: eventStore_Load_def eventStore_Load_loop_filter)

lemma apply_event_replayed [simp]:
  "ID (apply_event o' e False) = Event_ID e"
  "uncommitted (apply_event o' e False) = uncommitted o'"
  by (cases e; simp add: apply_event_def)+

lemma apply_event_new [simp]:
  "ID (apply_event o' e True) = Event_ID e"
  "uncommitted (apply_event o' e True) = uncommitted o' @ [e]"
  by (cases e; simp add: apply_event_def)+

lemma apply_event_Status [simp]:
  "Status (apply_event o' (Placed i) b) = StatusPlaced"
  "Status (apply_event o' (Activated i) b) = StatusActivated"
  "Status (apply_event o' (OtherEvent i) b) = Status o'"
  by (simp_all add: apply_event_def Let_def)

lemma loadFromHistory_loop_uncommitted:
  "uncommitted (loadFromHistory_loop es o') = uncommitted o'"
  by (induction es arbitrary: o') simp_all

lemma loadFromHistory_loop_snoc:
  "loadFromHistory_loop (es @ [e]) o' = apply_event (loadFromHistory_loop es o') e False"
  by (induction es arbitrary: o') simp_all

lemma loadFromHistory_uncommitted: "uncommitted (loadFromHistory evs) = []"
  by (simp add: loadFromHistory_def loadFromHistory_loop_uncommitted Order_zero_def)

lemma defaultRepository_Load_uncommitted: "uncommitted (defaultRepository_Load r id') = []"
  by (simp add: defaultRepository_Load_def loadFromHistory_uncommitted Order_zero_def
      split: sum.split)

lemma defaultRepository_Save_events:
  "events (Store (defaultRepository_Save r order)) = events (Store r) @ uncommitted order"
  by (simp add: defaultRepository_Save_def eventStore_Save_def)

subsection \<open>What a sequence of calls leaves behind\<close>

lemma Order_Place_last_event_applied:
  "Order_Place o' orderLines = (None, o1) \<Longrightarrow> last_event_applied o1"
  by (auto simp: Order_Place_def last_event_applied_def split: if_splits)

lemma Order_Activate_fires:
  "Status o' = StatusPlaced \<Longrightarrow> last_event_applied (Order_Activate o')"
  by (simp add: Order_Activate_def last_event_applied_def)

lemma Order_Activate_last_event_applied:
  "last_event_applied o' \<Longrightarrow> last_event_applied (Order_Activate o')"
  by (cases "Status o' = StatusPlaced")
     (simp_all add: Order_Activate_fires, simp add: Order_Activate_def)

lemma perform_last_event_applied:
  "last_event_applied o' \<Longrightarrow> perform o' ops = Some o'' \<Longrightarrow> last_event_applied o''"
proof (induction ops arbitrary: o')
  case Nil
  then show ?case by simp
next
  case (Cons op ops)
  show ?case
  proof (cases op)
    case (CallPlace orderLines)
    with Cons.prems(2) obtain o1 where
      placed: "Order_Place o' orderLines = (None, o1)" and rest: "perform o1 ops = Some o''"
      by (auto split: prod.splits option.splits)
    from Order_Place_last_event_applied [OF placed] rest show ?thesis
      by (rule Cons.IH)
  next
    case CallActivate
    with Cons.prems(2) have rest: "perform (Order_Activate o') ops = Some o''"
      by simp
    from Order_Activate_last_event_applied [OF Cons.prems(1)] rest show ?thesis
      by (rule Cons.IH)
  qed
qed

text \<open>
  On an aggregate whose status is 0 the first call already generates an event:
  \<^verbatim>\<open>Place\<close> when it succeeds, and \<^verbatim>\<open>Activate\<close> because 0 is \<open>StatusPlaced\<close>.
\<close>

lemma perform_first_operation:
  assumes "Status o' = StatusPlaced" and "ops \<noteq> []" and "perform o' ops = Some o''"
  shows "last_event_applied o''"
proof (cases ops)
  case Nil
  with assms(2) show ?thesis by simp
next
  case (Cons op rest)
  show ?thesis
  proof (cases op)
    case (CallPlace orderLines)
    with Cons assms(3) obtain o1 where
      placed: "Order_Place o' orderLines = (None, o1)" and rest: "perform o1 rest = Some o''"
      by (auto split: prod.splits option.splits)
    from Order_Place_last_event_applied [OF placed] rest show ?thesis
      by (rule perform_last_event_applied)
  next
    case CallActivate
    with Cons assms(3) have "perform (Order_Activate o') rest = Some o''"
      by simp
    with Order_Activate_fires [OF assms(1)] show ?thesis
      by (rule perform_last_event_applied)
  qed
qed

text \<open>
  After a save, the history loaded for the identifier of the newest uncommitted
  event ends with that event, so the replay ends by applying it.
\<close>

lemma replay_after_save:
  assumes "uncommitted o' \<noteq> []" and "Event_ID (last (uncommitted o')) = id'"
  shows "\<exists>evs. defaultRepository_Load (defaultRepository_Save r o') id' =
           apply_event (loadFromHistory_loop evs Order_zero) (last (uncommitted o')) False"
proof -
  let ?keep = "\<lambda>e. Event_ID e = id'"
  from assms(1) have split: "uncommitted o' = butlast (uncommitted o') @ [last (uncommitted o')]"
    by simp
  have "filter ?keep (events (Store r) @ uncommitted o') =
          filter ?keep (events (Store r) @ butlast (uncommitted o')) @
          filter ?keep [last (uncommitted o')]"
    by (subst split) (simp del: append_butlast_last_id)
  with assms(2) have kept:
    "filter ?keep (events (Store (defaultRepository_Save r o'))) =
       filter ?keep (events (Store r) @ butlast (uncommitted o')) @ [last (uncommitted o')]"
    by (simp add: defaultRepository_Save_events)
  have loaded: "eventStore_Load (Store (defaultRepository_Save r o')) id' =
       Inr (filter ?keep (events (Store r) @ butlast (uncommitted o')) @ [last (uncommitted o')])"
    unfolding eventStore_Load_filter kept by simp
  have "defaultRepository_Load (defaultRepository_Save r o') id' =
      apply_event
        (loadFromHistory_loop (filter ?keep (events (Store r) @ butlast (uncommitted o'))) Order_zero)
        (last (uncommitted o')) False"
    by (simp only: defaultRepository_Load_def loaded sum.case loadFromHistory_def
        loadFromHistory_loop_snoc)
  then show ?thesis ..
qed

lemma roundtrip_last_event_applied:
  assumes "last_event_applied o'"
  shows "ID (defaultRepository_Load (defaultRepository_Save r o') (ID o')) = ID o' \<and>
         Status (defaultRepository_Load (defaultRepository_Save r o') (ID o')) = Status o'"
proof -
  from assms have ne: "uncommitted o' \<noteq> []" and own: "Event_ID (last (uncommitted o')) = ID o'"
    by (auto simp: last_event_applied_def)
  from replay_after_save [OF ne own] obtain evs where
    "defaultRepository_Load (defaultRepository_Save r o') (ID o') =
       apply_event (loadFromHistory_loop evs Order_zero) (last (uncommitted o')) False" ..
  with assms show ?thesis
    by (auto simp: last_event_applied_def)
qed

text \<open>
  The operations of the aggregate stamp every event they generate with the
  identifier of the aggregate and leave that identifier as it is.
\<close>

lemma Order_Place_owns_uncommitted:
  assumes "\<forall>e \<in> set (uncommitted o'). Event_ID e = ID o'"
    and "Order_Place o' orderLines = (None, o1)"
  shows "\<forall>e \<in> set (uncommitted o1). Event_ID e = ID o1"
  using assms by (auto simp: Order_Place_def split: if_splits)

lemma Order_Activate_owns_uncommitted:
  assumes "\<forall>e \<in> set (uncommitted o'). Event_ID e = ID o'"
  shows "\<forall>e \<in> set (uncommitted (Order_Activate o')). Event_ID e = ID (Order_Activate o')"
  using assms by (auto simp: Order_Activate_def)

lemma perform_owns_uncommitted:
  "\<forall>e \<in> set (uncommitted o'). Event_ID e = ID o' \<Longrightarrow> perform o' ops = Some o'' \<Longrightarrow>
     \<forall>e \<in> set (uncommitted o''). Event_ID e = ID o''"
proof (induction ops arbitrary: o')
  case Nil
  then show ?case by simp
next
  case (Cons op ops)
  show ?case
  proof (cases op)
    case (CallPlace orderLines)
    with Cons.prems(2) obtain o1 where
      placed: "Order_Place o' orderLines = (None, o1)" and rest: "perform o1 ops = Some o''"
      by (auto split: prod.splits option.splits)
    from Order_Place_owns_uncommitted [OF Cons.prems(1) placed] rest show ?thesis
      by (rule Cons.IH)
  next
    case CallActivate
    with Cons.prems(2) have rest: "perform (Order_Activate o') ops = Some o''"
      by simp
    from Order_Activate_owns_uncommitted [OF Cons.prems(1)] rest show ?thesis
      by (rule Cons.IH)
  qed
qed

subsection \<open>Placing an order\<close>

text \<open>
  Claim C1 says that \<^verbatim>\<open>Place\<close> on an aggregate whose identifier is set fails with
  \<^verbatim>\<open>errAlreadyPlaced\<close> and applies no event. The aggregate \<^verbatim>\<open>Order{ID: "ABC123"}\<close>,
  which is what the command handler builds and what \<^verbatim>\<open>TestPlaceOrder\<close> expects to
  be placed, has a set identifier, and \<^verbatim>\<open>Place\<close> with one line returns no error and
  records a \<^verbatim>\<open>Placed\<close> event.
\<close>

theorem Place_nonempty_ID_counterexample:
  "ID \<lparr>ID = ''ABC123'', Status = 0, uncommitted = []\<rparr> \<noteq> '''' \<and>
   Order_Place \<lparr>ID = ''ABC123'', Status = 0, uncommitted = []\<rparr> [Line] =
     (None, \<lparr>ID = ''ABC123'', Status = 0, uncommitted = [Placed ''ABC123'']\<rparr>)"
  by (simp add: Order_Place_def apply_event_def StatusPlaced_def)

text \<open>
  Claim C1, as far as the handler and its test fix the behaviour: an aggregate
  that has only been seeded with a non-empty identifier (a fresh instance, no
  event applied to it yet) is not rejected as already placed; with at least one
  line \<^verbatim>\<open>Place\<close> succeeds on it and applies exactly one \<^verbatim>\<open>Placed\<close> event that carries
  the identifier. Whenever \<^verbatim>\<open>Place\<close> does fail with \<^verbatim>\<open>errAlreadyPlaced\<close>, it applies
  no event: identifier, status and uncommitted events are as before. Which
  aggregates get that error, and what \<^verbatim>\<open>Place\<close> does to an order that has been
  placed before, is not stated here.
\<close>

theorem Place_seeded_aggregate:
  "(fst (Order_Place o' orderLines) = Some errAlreadyPlaced \<longrightarrow>
      snd (Order_Place o' orderLines) = o') \<and>
   (id' \<noteq> '''' \<and> orderLines \<noteq> [] \<longrightarrow>
      Order_Place \<lparr>ID = id', Status = 0, uncommitted = []\<rparr> orderLines =
        (None, \<lparr>ID = id', Status = StatusPlaced, uncommitted = [Placed id']\<rparr>))"
proof -
  have "fst (Order_Place o' orderLines) = Some errAlreadyPlaced \<longrightarrow>
      snd (Order_Place o' orderLines) = o'"
    by (simp add: Order_Place_def)
  moreover have "id' \<noteq> '''' \<and> orderLines \<noteq> [] \<longrightarrow>
      Order_Place \<lparr>ID = id', Status = 0, uncommitted = []\<rparr> orderLines =
        (None, \<lparr>ID = id', Status = StatusPlaced, uncommitted = [Placed id']\<rparr>)"
    by (simp add: Order_Place_def apply_event_def)
  ultimately show ?thesis ..
qed

text \<open>
  Claim C1 at a call that returns \<^verbatim>\<open>errAlreadyPlaced\<close> and at the fresh aggregate
  seeded with \<^verbatim>\<open>X1\<close>, each with one order line.
\<close>

theorem Place_seeded_aggregate_witness:
  "fst (Order_Place Order_zero [Line]) = Some errAlreadyPlaced \<and>
   snd (Order_Place Order_zero [Line]) = Order_zero \<and>
   ''X1'' \<noteq> '''' \<and> [Line] \<noteq> [] \<and>
   Order_Place \<lparr>ID = ''X1'', Status = 0, uncommitted = []\<rparr> [Line] =
     (None, \<lparr>ID = ''X1'', Status = StatusPlaced, uncommitted = [Placed ''X1'']\<rparr>)"
proof -
  have fails: "fst (Order_Place Order_zero [Line]) = Some errAlreadyPlaced"
    by (simp add: Order_Place_def Order_zero_def)
  from fails Place_seeded_aggregate [of Order_zero "[Line]" "''X1''"] show ?thesis
    by simp
qed

text \<open>
  Claim C3 says that \<^verbatim>\<open>Place\<close> with no lines fails with \<^verbatim>\<open>errEmptyOrderLine\<close> on
  every aggregate. The identifier is checked before the lines: on the zero-value
  aggregate the error is \<^verbatim>\<open>errAlreadyPlaced\<close>.
\<close>

theorem Place_no_lines_counterexample:
  "Order_Place \<lparr>ID = '''', Status = 0, uncommitted = []\<rparr> [] =
     (Some errAlreadyPlaced, \<lparr>ID = '''', Status = 0, uncommitted = []\<rparr>) \<and>
   errAlreadyPlaced \<noteq> errEmptyOrderLine"
  by (simp add: Order_Place_def)

text \<open>
  Claim C3, as the code has it: \<^verbatim>\<open>Place\<close> with no lines fails on every aggregate
  and leaves it as it was; the error is \<^verbatim>\<open>errEmptyOrderLine\<close> whenever the
  identifier of the aggregate is not empty.
\<close>

theorem Place_no_lines_fails:
  "snd (Order_Place o' []) = o' \<and>
   fst (Order_Place o' []) \<noteq> None \<and>
   (ID o' \<noteq> '''' \<longrightarrow> Order_Place o' [] = (Some errEmptyOrderLine, o'))"
  by (simp add: Order_Place_def)

text \<open>Claim C3 at the aggregate the handler builds for the identifier \<^verbatim>\<open>X\<close>.\<close>

theorem Place_no_lines_fails_witness:
  "ID \<lparr>ID = ''X'', Status = 0, uncommitted = []\<rparr> \<noteq> '''' \<and>
   Order_Place \<lparr>ID = ''X'', Status = 0, uncommitted = []\<rparr> [] =
     (Some errEmptyOrderLine, \<lparr>ID = ''X'', Status = 0, uncommitted = []\<rparr>)"
  using Place_no_lines_fails [of "\<lparr>ID = ''X'', Status = 0, uncommitted = []\<rparr>"]
  by simp

subsection \<open>Activating an order\<close>

text \<open>
  The guard of \<^verbatim>\<open>Activate\<close>: on every aggregate whose status is anything other than
  \<^verbatim>\<open>StatusPlaced\<close> the call changes nothing; no event is applied, the uncommitted
  events stay as they are, and there is no error to return.
\<close>

lemma Activate_noop_unless_Placed:
  "Status o' \<noteq> StatusPlaced \<Longrightarrow> Order_Activate o' = o'"
  by (simp add: Order_Activate_def)

text \<open>
  Claim C2 says that \<^verbatim>\<open>Activate\<close> is a silent no-op on every aggregate that is not
  placed, the zero value of a freshly constructed or soft-miss-loaded aggregate
  included, so that handling \<^verbatim>\<open>Activate\<close> for an unknown identifier has no effect.
  The guard \<^verbatim>\<open>o.Status == StatusPlaced\<close> lets the zero value through, since
  \<^verbatim>\<open>StatusPlaced\<close> is 0: \<^verbatim>\<open>Activate\<close> on \<^verbatim>\<open>Order{}\<close> applies an \<^verbatim>\<open>Activated\<close> event with
  the empty identifier, and a new handler that is given \<^verbatim>\<open>Activate\<close> commands for
  the two unknown orders \<^verbatim>\<open>U1\<close> and \<^verbatim>\<open>U2\<close> appends one such event for each.
  Here the code departs from the claim.
\<close>

theorem Activate_zero_value_fires:
  "Status Order_zero = StatusPlaced \<and>
   Order_Activate Order_zero =
     \<lparr>ID = '''', Status = StatusActivated, uncommitted = [Activated '''']\<rparr> \<and>
   events (Store (Repository (fst (commandHandler_Handle
     (fst (commandHandler_Handle (NewCommandHandler (NewRepository NewEventStore))
        (Activate ''U1'')))
     (Activate ''U2''))))) = [Activated '''', Activated '''']"
proof -
  have zero: "Status Order_zero = StatusPlaced"
    by (simp add: Order_zero_def StatusPlaced_def)
  have fired: "Order_Activate Order_zero =
     \<lparr>ID = '''', Status = StatusActivated, uncommitted = [Activated '''']\<rparr>"
    by (simp add: Order_zero_def Order_Activate_def apply_event_def StatusPlaced_def)
  have first: "fst (commandHandler_Handle (NewCommandHandler (NewRepository NewEventStore))
        (Activate ''U1'')) = \<lparr>Repository = \<lparr>Store = \<lparr>events = [Activated '''']\<rparr>\<rparr>\<rparr>"
    by (simp add: NewCommandHandler_def NewRepository_def NewEventStore_def eventStore_Load_def
        defaultRepository_Load_def defaultRepository_Save_def eventStore_Save_def fired)
  have second: "fst (commandHandler_Handle \<lparr>Repository = \<lparr>Store = \<lparr>events = [Activated '''']\<rparr>\<rparr>\<rparr>
        (Activate ''U2'')) =
      \<lparr>Repository = \<lparr>Store = \<lparr>events = [Activated '''', Activated '''']\<rparr>\<rparr>\<rparr>"
    by (simp add: eventStore_Load_def defaultRepository_Load_def defaultRepository_Save_def
        eventStore_Save_def fired)
  from zero fired show ?thesis
    unfolding first second by simp
qed

text \<open>
  Claim C9: on an aggregate whose status is \<^verbatim>\<open>StatusActivated\<close>, \<^verbatim>\<open>Activate\<close>
  adds no uncommitted event and leaves the status (indeed the whole aggregate)
  unchanged.
\<close>

theorem Activate_idempotent:
  "Status o' = StatusActivated \<Longrightarrow>
     Order_Activate o' = o' \<and>
     uncommitted (Order_Activate o') = uncommitted o' \<and>
     Status (Order_Activate o') = StatusActivated"
  by (simp add: Order_Activate_def StatusActivated_def StatusPlaced_def)

text \<open>Claim C9 at an aggregate that one call of \<^verbatim>\<open>Activate\<close> has just activated.\<close>

theorem Activate_idempotent_witness:
  "Status (Order_Activate \<lparr>ID = ''A'', Status = 0, uncommitted = []\<rparr>) = StatusActivated \<and>
   Order_Activate (Order_Activate \<lparr>ID = ''A'', Status = 0, uncommitted = []\<rparr>) =
     Order_Activate \<lparr>ID = ''A'', Status = 0, uncommitted = []\<rparr>"
  using Activate_idempotent [of "Order_Activate \<lparr>ID = ''A'', Status = 0, uncommitted = []\<rparr>"]
  by (simp add: Order_Activate_def StatusPlaced_def)

subsection \<open>The event store\<close>

text \<open>
  Claim C4 says that after \<^verbatim>\<open>Save(id, events)\<close> the store loads, for \<^verbatim>\<open>id\<close>, the
  history it had for \<^verbatim>\<open>id\<close> followed by \<^verbatim>\<open>events\<close>. The store files an event under
  the identifier the event carries, not under the \<^verbatim>\<open>id\<close> of the call: an event of
  \<^verbatim>\<open>B\<close> saved under \<^verbatim>\<open>A\<close> is missing from the history loaded for \<^verbatim>\<open>A\<close>.
\<close>

theorem eventStore_Save_foreign_event_counterexample:
  "eventStore_Load \<lparr>events = [Placed ''A'']\<rparr> ''A'' = Inr [Placed ''A''] \<and>
   eventStore_Load (eventStore_Save \<lparr>events = [Placed ''A'']\<rparr> ''A'' [Activated ''B'']) ''A'' =
     Inr [Placed ''A''] \<and>
   [Placed ''A''] \<noteq> [Placed ''A''] @ [Activated ''B'']"
  by (simp add: eventStore_Load_def eventStore_Save_def)

text \<open>
  Claim C4, as the code has it. For every identifier \<^verbatim>\<open>id\<close>, every prior store and
  every sequence \<^verbatim>\<open>events\<close>: after \<^verbatim>\<open>Save(id, events)\<close> the log is the prior log
  followed by \<^verbatim>\<open>events\<close> in their order, so nothing is reordered or dropped, and
  saving an empty sequence leaves the store as it was. \<^verbatim>\<open>Load(j)\<close>, for any
  identifier \<^verbatim>\<open>j\<close>, then returns the prior history of \<^verbatim>\<open>j\<close> followed by those of
  \<^verbatim>\<open>events\<close> that carry \<^verbatim>\<open>j\<close>, in their order, and fails with \<^verbatim>\<open>errOrderNotFound\<close>
  when there are none. So when every event of \<^verbatim>\<open>events\<close> carries \<^verbatim>\<open>id\<close>,
  \<^verbatim>\<open>Load(id)\<close> returns the prior history of \<^verbatim>\<open>id\<close> (none, if that load failed)
  followed by \<^verbatim>\<open>events\<close>.
\<close>

theorem eventStore_Save_then_Load:
  "events (eventStore_Save s id' evs) = events s @ evs \<and>
   eventStore_Save s id' [] = s \<and>
   eventStore_Load (eventStore_Save s id' evs) j =
     (if eventStore_Load_loop (events s) j [] @ filter (\<lambda>e. Event_ID e = j) evs = []
      then Inl errOrderNotFound
      else Inr (eventStore_Load_loop (events s) j [] @ filter (\<lambda>e. Event_ID e = j) evs)) \<and>
   ((\<forall>e \<in> set evs. Event_ID e = id') \<longrightarrow>
      eventStore_Load (eventStore_Save s id' evs) id' =
        (case eventStore_Load s id' of
           Inl err \<Rightarrow> if evs = [] then Inl errOrderNotFound else Inr evs
         | Inr prior \<Rightarrow> Inr (prior @ evs)))"
proof -
  have log: "events (eventStore_Save s id' evs) = events s @ evs"
    by (simp add: eventStore_Save_def)
  have empty_save: "eventStore_Save s id' [] = s"
    by (simp add: eventStore_Save_def)
  have any: "eventStore_Load (eventStore_Save s id' evs) j =
     (if eventStore_Load_loop (events s) j [] @ filter (\<lambda>e. Event_ID e = j) evs = []
      then Inl errOrderNotFound
      else Inr (eventStore_Load_loop (events s) j [] @ filter (\<lambda>e. Event_ID e = j) evs))"
    by (simp add: eventStore_Load_filter log eventStore_Load_loop_filter)
  have own: "eventStore_Load (eventStore_Save s id' evs) id' =
        (case eventStore_Load s id' of
           Inl err \<Rightarrow> if evs = [] then Inl errOrderNotFound else Inr evs
         | Inr prior \<Rightarrow> Inr (prior @ evs))"
    if "\<forall>e \<in> set evs. Event_ID e = id'"
  proof -
    from that have "filter (\<lambda>e. Event_ID e = id') evs = evs"
      by (simp add: filter_id_conv)
    then show ?thesis
      by (simp add: eventStore_Load_filter log)
  qed
  from own have own_events: "(\<forall>e \<in> set evs. Event_ID e = id') \<longrightarrow>
      eventStore_Load (eventStore_Save s id' evs) id' =
        (case eventStore_Load s id' of
           Inl err \<Rightarrow> if evs = [] then Inl errOrderNotFound else Inr evs
         | Inr prior \<Rightarrow> Inr (prior @ evs))" ..
  show ?thesis
    by (rule conjI [OF log conjI [OF empty_save conjI [OF any own_events]]])
qed

text \<open>
  Claim C4 on a store that holds events of two orders: an event of \<^verbatim>\<open>A\<close> is saved
  under \<^verbatim>\<open>A\<close>, and the histories of \<^verbatim>\<open>A\<close> and of \<^verbatim>\<open>B\<close> are loaded.
\<close>

theorem eventStore_Save_then_Load_witness:
  "Event_ID (Activated ''A'') = ''A'' \<and>
   events (eventStore_Save \<lparr>events = [Placed ''A'', Placed ''B'']\<rparr> ''A'' [Activated ''A'']) =
     [Placed ''A'', Placed ''B'', Activated ''A''] \<and>
   eventStore_Load (eventStore_Save \<lparr>events = [Placed ''A'', Placed ''B'']\<rparr> ''A'' [Activated ''A'']) ''A'' =
     Inr [Placed ''A'', Activated ''A''] \<and>
   eventStore_Load (eventStore_Save \<lparr>events = [Placed ''A'', Placed ''B'']\<rparr> ''A'' [Activated ''A'']) ''B'' =
     Inr [Placed ''B'']"
proof -
  have prior: "eventStore_Load \<lparr>events = [Placed ''A'', Placed ''B'']\<rparr> ''A'' = Inr [Placed ''A'']"
    by (simp add: eventStore_Load_def)
  from eventStore_Save_then_Load
         [of "\<lparr>events = [Placed ''A'', Placed ''B'']\<rparr>" "''A''" "[Activated ''A'']" "''B''"]
  show ?thesis by (simp add: prior)
qed

text \<open>
  Claim C5: when the log of the store holds no event that carries the identifier
  \<^verbatim>\<open>id\<close>, \<^verbatim>\<open>Load(id)\<close> fails with \<^verbatim>\<open>errOrderNotFound\<close>, whether or not the store
  holds events of other identifiers.
\<close>

theorem eventStore_Load_NotFound:
  "\<forall>e \<in> set (events s). Event_ID e \<noteq> id' \<Longrightarrow> eventStore_Load s id' = Inl errOrderNotFound"
  by (simp add: eventStore_Load_filter filter_empty_conv)

text \<open>Claim C5 on a store that holds the two events of another order.\<close>

theorem eventStore_Load_NotFound_witness:
  "Event_ID (Placed ''A'') \<noteq> ''B'' \<and> Event_ID (Activated ''A'') \<noteq> ''B'' \<and>
   eventStore_Load \<lparr>events = [Placed ''A'', Activated ''A'']\<rparr> ''B'' = Inl errOrderNotFound"
  using eventStore_Load_NotFound [of "\<lparr>events = [Placed ''A'', Activated ''A'']\<rparr>" "''B''"]
  by simp

subsection \<open>The repository\<close>

text \<open>
  Claim C7 says that \<^verbatim>\<open>Save\<close> of the repository appends the uncommitted events
  under the identifier of the aggregate. The store files each event under the
  identifier the event carries. \<^verbatim>\<open>ID\<close> is an exported field: an aggregate placed
  as \<^verbatim>\<open>A\<close> whose identifier is then set to \<^verbatim>\<open>B\<close> is saved with its \<^verbatim>\<open>Placed\<close> event
  under \<^verbatim>\<open>A\<close>, and nothing is found under \<^verbatim>\<open>B\<close>.
\<close>

theorem defaultRepository_Save_reassigned_ID_counterexample:
  "(snd (Order_Place \<lparr>ID = ''A'', Status = 0, uncommitted = []\<rparr> [Line]))\<lparr>ID := ''B''\<rparr> =
     \<lparr>ID = ''B'', Status = 0, uncommitted = [Placed ''A'']\<rparr> \<and>
   eventStore_Load
     (Store (defaultRepository_Save (NewRepository NewEventStore)
        \<lparr>ID = ''B'', Status = 0, uncommitted = [Placed ''A'']\<rparr>)) ''B'' = Inl errOrderNotFound \<and>
   eventStore_Load
     (Store (defaultRepository_Save (NewRepository NewEventStore)
        \<lparr>ID = ''B'', Status = 0, uncommitted = [Placed ''A'']\<rparr>)) ''A'' = Inr [Placed ''A'']"
  by (simp add: Order_Place_def apply_event_def StatusPlaced_def defaultRepository_Save_def
      eventStore_Save_def eventStore_Load_def NewRepository_def NewEventStore_def)

text \<open>
  Claim C7, as the code has it. \<^verbatim>\<open>Save\<close> of the repository leaves the repository
  and its store untouched when the aggregate has no uncommitted events. In every
  case the log afterwards is the old log followed by exactly the uncommitted
  events, in the order they were generated. When the aggregate has uncommitted
  events and each of them carries the identifier of the aggregate, they are
  found under that identifier: loading it from the store gives its earlier
  history followed by the uncommitted events. That condition holds for every
  aggregate that a sequence of successful operations has made from a fresh one.
  A replayed aggregate has no uncommitted events, so saving a freshly loaded
  aggregate writes nothing.
\<close>

theorem defaultRepository_Save_appends_uncommitted:
  "(uncommitted order = [] \<longrightarrow> defaultRepository_Save r order = r) \<and>
   events (Store (defaultRepository_Save r order)) = events (Store r) @ uncommitted order \<and>
   (uncommitted order \<noteq> [] \<and> (\<forall>e \<in> set (uncommitted order). Event_ID e = ID order) \<longrightarrow>
      eventStore_Load (Store (defaultRepository_Save r order)) (ID order) =
        Inr (eventStore_Load_loop (events (Store r)) (ID order) [] @ uncommitted order)) \<and>
   (perform \<lparr>ID = seed, Status = 0, uncommitted = []\<rparr> ops = Some order \<longrightarrow>
      (\<forall>e \<in> set (uncommitted order). Event_ID e = ID order)) \<and>
   uncommitted (loadFromHistory evs) = [] \<and>
   defaultRepository_Save r (defaultRepository_Load r' id') = r"
proof -
  have untouched: "uncommitted order = [] \<longrightarrow> defaultRepository_Save r order = r"
    by (simp add: defaultRepository_Save_def)
  have log: "events (Store (defaultRepository_Save r order)) = events (Store r) @ uncommitted order"
    by (rule defaultRepository_Save_events)
  have found: "eventStore_Load (Store (defaultRepository_Save r order)) (ID order) =
        Inr (eventStore_Load_loop (events (Store r)) (ID order) [] @ uncommitted order)"
    if "uncommitted order \<noteq> []" and "\<forall>e \<in> set (uncommitted order). Event_ID e = ID order"
  proof -
    from that(2) have "filter (\<lambda>e. Event_ID e = ID order) (uncommitted order) = uncommitted order"
      by (simp add: filter_id_conv)
    with that(1) show ?thesis
      by (simp add: eventStore_Load_filter log eventStore_Load_loop_filter)
  qed
  have owned: "\<forall>e \<in> set (uncommitted order). Event_ID e = ID order"
    if "perform \<lparr>ID = seed, Status = 0, uncommitted = []\<rparr> ops = Some order"
  proof -
    have "\<forall>e \<in> set (uncommitted \<lparr>ID = seed, Status = 0, uncommitted = []\<rparr>).
            Event_ID e = ID \<lparr>ID = seed, Status = 0, uncommitted = []\<rparr>"
      by simp
    from this that show ?thesis
      by (rule perform_owns_uncommitted)
  qed
  have replayed: "uncommitted (loadFromHistory evs) = []"
    by (rule loadFromHistory_uncommitted)
  have reloaded: "defaultRepository_Save r (defaultRepository_Load r' id') = r"
    by (simp add: defaultRepository_Save_def defaultRepository_Load_uncommitted)
  from found have found_owned:
    "uncommitted order \<noteq> [] \<and> (\<forall>e \<in> set (uncommitted order). Event_ID e = ID order) \<longrightarrow>
      eventStore_Load (Store (defaultRepository_Save r order)) (ID order) =
        Inr (eventStore_Load_loop (events (Store r)) (ID order) [] @ uncommitted order)"
    by blast
  from owned have owned_performed:
    "perform \<lparr>ID = seed, Status = 0, uncommitted = []\<rparr> ops = Some order \<longrightarrow>
      (\<forall>e \<in> set (uncommitted order). Event_ID e = ID order)" ..
  show ?thesis
    by (rule conjI [OF untouched conjI [OF log conjI [OF found_owned
          conjI [OF owned_performed conjI [OF replayed reloaded]]]]])
qed

text \<open>
  Claim C7 at an aggregate without uncommitted events, and at the aggregate that
  placing and activating the fresh order \<^verbatim>\<open>A\<close> leaves, each saved to a store that
  already holds an event of another order.
\<close>

theorem defaultRepository_Save_appends_uncommitted_witness:
  "uncommitted \<lparr>ID = ''A'', Status = 0, uncommitted = []\<rparr> = [] \<and>
   defaultRepository_Save (NewRepository \<lparr>events = [Placed ''B'']\<rparr>)
     \<lparr>ID = ''A'', Status = 0, uncommitted = []\<rparr> = NewRepository \<lparr>events = [Placed ''B'']\<rparr> \<and>
   perform \<lparr>ID = ''A'', Status = 0, uncommitted = []\<rparr> [CallPlace [Line], CallActivate] =
     Some \<lparr>ID = ''A'', Status = 1, uncommitted = [Placed ''A'', Activated ''A'']\<rparr> \<and>
   uncommitted \<lparr>ID = ''A'', Status = 1, uncommitted = [Placed ''A'', Activated ''A'']\<rparr> \<noteq> [] \<and>
   Event_ID (Placed ''A'') = ''A'' \<and> Event_ID (Activated ''A'') = ''A'' \<and>
   events (Store (defaultRepository_Save (NewRepository \<lparr>events = [Placed ''B'']\<rparr>)
     \<lparr>ID = ''A'', Status = 1, uncommitted = [Placed ''A'', Activated ''A'']\<rparr>)) =
     [Placed ''B'', Placed ''A'', Activated ''A''] \<and>
   eventStore_Load (Store (defaultRepository_Save (NewRepository \<lparr>events = [Placed ''B'']\<rparr>)
     \<lparr>ID = ''A'', Status = 1, uncommitted = [Placed ''A'', Activated ''A'']\<rparr>)) ''A'' =
     Inr [Placed ''A'', Activated ''A'']"
proof -
  have run: "perform \<lparr>ID = ''A'', Status = 0, uncommitted = []\<rparr> [CallPlace [Line], CallActivate] =
     Some \<lparr>ID = ''A'', Status = 1, uncommitted = [Placed ''A'', Activated ''A'']\<rparr>"
    by (simp add: Order_Place_def Order_Activate_def apply_event_def StatusPlaced_def
        StatusActivated_def)
  from run
    defaultRepository_Save_appends_uncommitted
      [of "\<lparr>ID = ''A'', Status = 0, uncommitted = []\<rparr>"
          "NewRepository \<lparr>events = [Placed ''B'']\<rparr>" "''A''" "[]" "[]"
          "NewRepository NewEventStore" "''A''"]
    defaultRepository_Save_appends_uncommitted
      [of "\<lparr>ID = ''A'', Status = 1, uncommitted = [Placed ''A'', Activated ''A'']\<rparr>"
          "NewRepository \<lparr>events = [Placed ''B'']\<rparr>" "''A''" "[CallPlace [Line], CallActivate]" "[]"
          "NewRepository NewEventStore" "''A''"]
  show ?thesis
    by (simp add: NewRepository_def)
qed

text \<open>
  Claim C8: when \<^verbatim>\<open>Load(id)\<close> of the store fails with \<^verbatim>\<open>errOrderNotFound\<close>,
  \<^verbatim>\<open>Load(id)\<close> of the repository returns the zero-value aggregate: empty
  identifier, status 0, no uncommitted events. The result of the repository's
  \<^verbatim>\<open>Load\<close> is an aggregate and nothing else, so the error cannot leave it.
\<close>

theorem defaultRepository_Load_soft_miss:
  "eventStore_Load (Store r) id' = Inl errOrderNotFound \<Longrightarrow>
     defaultRepository_Load r id' = \<lparr>ID = '''', Status = 0, uncommitted = []\<rparr>"
  by (simp add: defaultRepository_Load_def Order_zero_def)

text \<open>Claim C8 on a new repository over a new store.\<close>

theorem defaultRepository_Load_soft_miss_witness:
  "eventStore_Load (Store (NewRepository NewEventStore)) ''UNKNOWN'' = Inl errOrderNotFound \<and>
   defaultRepository_Load (NewRepository NewEventStore) ''UNKNOWN'' =
     \<lparr>ID = '''', Status = 0, uncommitted = []\<rparr>"
proof -
  have miss: "eventStore_Load (Store (NewRepository NewEventStore)) ''UNKNOWN'' = Inl errOrderNotFound"
    by (simp add: NewRepository_def NewEventStore_def eventStore_Load_def)
  from miss defaultRepository_Load_soft_miss [OF miss] show ?thesis by simp
qed

subsection \<open>Saving and loading back\<close>

text \<open>
  Claim C6 says that after any sequence of successful operations on a fresh
  aggregate, saving it and loading it back by its identifier gives the same
  identifier and status. With no operation at all nothing is saved: the fresh
  aggregate \<^verbatim>\<open>Order{ID: "X"}\<close> comes back from a new store as the zero value,
  whose identifier is empty.
\<close>

theorem roundtrip_no_operation_counterexample:
  "perform \<lparr>ID = ''X'', Status = 0, uncommitted = []\<rparr> [] =
     Some \<lparr>ID = ''X'', Status = 0, uncommitted = []\<rparr> \<and>
   ID (defaultRepository_Load
        (defaultRepository_Save (NewRepository NewEventStore)
           \<lparr>ID = ''X'', Status = 0, uncommitted = []\<rparr>) ''X'') = '''' \<and>
   '''' \<noteq> ''X''"
  by (simp add: defaultRepository_Save_def defaultRepository_Load_def NewRepository_def
      NewEventStore_def eventStore_Load_def Order_zero_def)

text \<open>
  Claim C6, as the code has it: after any sequence of at least one operation, all
  successful, on a fresh aggregate (built with any identifier, the empty one
  included), saving the aggregate to a repository whose store holds anything and
  loading it back by its identifier gives an aggregate with the same identifier
  and the same status.
\<close>

theorem save_load_roundtrip:
  assumes "ops \<noteq> []"
    and "perform \<lparr>ID = id', Status = 0, uncommitted = []\<rparr> ops = Some o'"
  shows "ID (defaultRepository_Load (defaultRepository_Save r o') (ID o')) = ID o' \<and>
         Status (defaultRepository_Load (defaultRepository_Save r o') (ID o')) = Status o'"
proof -
  have "Status \<lparr>ID = id', Status = 0, uncommitted = []\<rparr> = StatusPlaced"
    by (simp add: StatusPlaced_def)
  from this assms have "last_event_applied o'"
    by (rule perform_first_operation)
  then show ?thesis
    by (rule roundtrip_last_event_applied)
qed

text \<open>Claim C6 for an order that is placed and then activated.\<close>

theorem save_load_roundtrip_witness:
  "[CallPlace [Line], CallActivate] \<noteq> [] \<and>
   perform \<lparr>ID = ''ABC123'', Status = 0, uncommitted = []\<rparr> [CallPlace [Line], CallActivate] =
     Some \<lparr>ID = ''ABC123'', Status = 1, uncommitted = [Placed ''ABC123'', Activated ''ABC123'']\<rparr> \<and>
   ID (defaultRepository_Load
        (defaultRepository_Save (NewRepository NewEventStore)
           \<lparr>ID = ''ABC123'', Status = 1,
             uncommitted = [Placed ''ABC123'', Activated ''ABC123'']\<rparr>) ''ABC123'') = ''ABC123'' \<and>
   Status (defaultRepository_Load
        (defaultRepository_Save (NewRepository NewEventStore)
           \<lparr>ID = ''ABC123'', Status = 1,
             uncommitted = [Placed ''ABC123'', Activated ''ABC123'']\<rparr>) ''ABC123'') = 1"
proof -
  have ops: "[CallPlace [Line], CallActivate] \<noteq> []"
    by simp
  have run: "perform \<lparr>ID = ''ABC123'', Status = 0, uncommitted = []\<rparr> [CallPlace [Line], CallActivate] =
     Some \<lparr>ID = ''ABC123'', Status = 1, uncommitted = [Placed ''ABC123'', Activated ''ABC123'']\<rparr>"
    by (simp add: Order_Place_def Order_Activate_def apply_event_def StatusPlaced_def
        StatusActivated_def)
  from ops run save_load_roundtrip [OF ops run, of "NewRepository NewEventStore"]
  show ?thesis by simp
qed

subsection \<open>Activating an unknown order through the handler\<close>

text \<open>
  Claim C10 says that, for every identifier \<^verbatim>\<open>id\<close> the store has no events for,
  handling \<^verbatim>\<open>Activate{id}\<close> appends an \<^verbatim>\<open>Activated\<close> event with the empty
  identifier, after which \<^verbatim>\<open>Load("")\<close> succeeds and \<^verbatim>\<open>Load(id)\<close> still fails. For
  the empty identifier itself the two loads are the same load, and it succeeds.
\<close>

theorem Handle_Activate_empty_id_counterexample:
  "eventStore_Load (Store (Repository (NewCommandHandler (NewRepository NewEventStore)))) '''' =
     Inl errOrderNotFound \<and>
   eventStore_Load
     (Store (Repository (fst (commandHandler_Handle
        (NewCommandHandler (NewRepository NewEventStore)) (Activate ''''))))) '''' =
     Inr [Activated '''']"
  by (simp add: NewCommandHandler_def NewRepository_def NewEventStore_def eventStore_Load_def
      defaultRepository_Load_def defaultRepository_Save_def eventStore_Save_def
      Order_zero_def Order_Activate_def apply_event_def StatusPlaced_def)

text \<open>
  Claim C10, as the code has it: when the store of the handler's repository has
  no events for \<^verbatim>\<open>id\<close>, handling \<^verbatim>\<open>Activate{id}\<close> appends exactly one event to the
  log, \<^verbatim>\<open>Activated\<close> with the empty identifier (the zero-value aggregate has
  status 0, which is \<^verbatim>\<open>StatusPlaced\<close>); afterwards \<^verbatim>\<open>Load("")\<close> of the store
  succeeds with the earlier events of the empty identifier followed by the new
  one, and \<^verbatim>\<open>Load(id)\<close> still fails with \<^verbatim>\<open>errOrderNotFound\<close> when \<^verbatim>\<open>id\<close> is not
  empty.
\<close>

theorem Handle_Activate_unknown_id:
  assumes "eventStore_Load (Store (Repository h)) id' = Inl errOrderNotFound"
  shows "events (Store (Repository (fst (commandHandler_Handle h (Activate id'))))) =
           events (Store (Repository h)) @ [Activated ''''] \<and>
         eventStore_Load (Store (Repository (fst (commandHandler_Handle h (Activate id'))))) '''' =
           Inr (eventStore_Load_loop (events (Store (Repository h))) '''' [] @ [Activated '''']) \<and>
         (id' \<noteq> '''' \<longrightarrow>
            eventStore_Load (Store (Repository (fst (commandHandler_Handle h (Activate id'))))) id' =
              Inl errOrderNotFound)"
proof -
  from assms have loaded: "defaultRepository_Load (Repository h) id' = Order_zero"
    by (simp add: defaultRepository_Load_def)
  have fired: "Order_Activate Order_zero =
      \<lparr>ID = '''', Status = StatusActivated, uncommitted = [Activated '''']\<rparr>"
    by (simp add: Order_zero_def Order_Activate_def apply_event_def StatusPlaced_def)
  have after: "events (Store (Repository (fst (commandHandler_Handle h (Activate id'))))) =
           events (Store (Repository h)) @ [Activated '''']"
    by (simp add: loaded fired defaultRepository_Save_events)
  from assms have none: "filter (\<lambda>e. Event_ID e = id') (events (Store (Repository h))) = []"
    by (simp add: eventStore_Load_filter split: if_splits)
  have "eventStore_Load (Store (Repository (fst (commandHandler_Handle h (Activate id'))))) '''' =
           Inr (eventStore_Load_loop (events (Store (Repository h))) '''' [] @ [Activated ''''])"
    unfolding eventStore_Load_filter after by (simp add: eventStore_Load_loop_filter)
  moreover have "id' \<noteq> '''' \<longrightarrow>
            eventStore_Load (Store (Repository (fst (commandHandler_Handle h (Activate id'))))) id' =
              Inl errOrderNotFound"
    unfolding eventStore_Load_filter after using none by auto
  ultimately show ?thesis using after by blast
qed

text \<open>Claim C10 for the identifier \<^verbatim>\<open>UNKNOWN\<close> on a new handler, repository and store.\<close>

theorem Handle_Activate_unknown_id_witness:
  "eventStore_Load (Store (Repository (NewCommandHandler (NewRepository NewEventStore)))) ''UNKNOWN'' =
     Inl errOrderNotFound \<and>
   ''UNKNOWN'' \<noteq> '''' \<and>
   events (Store (Repository (fst (commandHandler_Handle
      (NewCommandHandler (NewRepository NewEventStore)) (Activate ''UNKNOWN''))))) = [Activated ''''] \<and>
   eventStore_Load (Store (Repository (fst (commandHandler_Handle
      (NewCommandHandler (NewRepository NewEventStore)) (Activate ''UNKNOWN''))))) '''' =
     Inr [Activated ''''] \<and>
   eventStore_Load (Store (Repository (fst (commandHandler_Handle
      (NewCommandHandler (NewRepository NewEventStore)) (Activate ''UNKNOWN''))))) ''UNKNOWN'' =
     Inl errOrderNotFound"
proof -
  have miss: "eventStore_Load (Store (Repository (NewCommandHandler (NewRepository NewEventStore))))
      ''UNKNOWN'' = Inl errOrderNotFound"
    by (simp add: NewCommandHandler_def NewRepository_def NewEventStore_def eventStore_Load_def)
  have before: "events (Store (Repository (NewCommandHandler (NewRepository NewEventStore)))) = []"
    by (simp add: NewCommandHandler_def NewRepository_def NewEventStore_def)
  from miss Handle_Activate_unknown_id [OF miss] show ?thesis
    by (simp add: before)
qed

end
